theory Spec2Isabelle
  imports Complex_Main "HOL-Library.AList" "HOL-Library.Sublist"
begin

section \<open>JavaScript values\<close>

text \<open>
  The cache stores arbitrary JavaScript values and the market data service tests a cached
  value for truthiness, so the values are a datatype of their own. A number among them
  is a payload, or the quotient of two counters: it is a real number, with \<open>NaN\<close> and
  \<open>Infinity\<close> as separate constructors, and the quotient is exact. The numbers the
  cache adds and compares, TTLs and expiries, are doubles and come in the next section.
  \<open>JObject\<close> stands for any object or array, identified by a reference number.
\<close>

datatype jsval =
    JUndefined
  | JNull
  | JBool bool
  | JNumber real
  | JNaN
  | JInfinity
  | JString string
  | JObject nat

text \<open>Truthiness, as \<^verbatim>\<open>if (x)\<close> and \<^verbatim>\<open>x || y\<close> test it.\<close>

fun truthy :: "jsval \<Rightarrow> bool" where
  "truthy JUndefined = False"
| "truthy JNull = False"
| "truthy (JBool b) = b"
| "truthy (JNumber x) = (x \<noteq> 0)"
| "truthy JNaN = False"
| "truthy JInfinity = True"
| "truthy (JString s) = (s \<noteq> [])"
| "truthy (JObject r) = True"

text \<open>\<^verbatim>\<open>a || b\<close> on values.\<close>

definition js_or :: "jsval \<Rightarrow> jsval \<Rightarrow> jsval" where
  "js_or a b = (if truthy a then a else b)"

text \<open>
  \<^verbatim>\<open>a / b\<close> on two counters (non-negative integers): \<open>0 / 0\<close> is \<open>NaN\<close> and
  \<open>a / 0\<close> is \<open>Infinity\<close> for positive \<open>a\<close>.
\<close>

definition js_div :: "nat \<Rightarrow> nat \<Rightarrow> jsval" where
  "js_div a b =
     (if b = 0 then (if a = 0 then JNaN else JInfinity)
      else JNumber (real a / real b))"

text \<open>
  \<^verbatim>\<open>x || d\<close> where \<open>x\<close> is an optional number (\<open>None\<close> is \<^verbatim>\<open>undefined\<close>): the
  default is taken when \<open>x\<close> is missing or zero.
\<close>

definition num_or :: "'a::zero option \<Rightarrow> 'a \<Rightarrow> 'a" where
  "num_or x d = (case x of None \<Rightarrow> d | Some n \<Rightarrow> if n = 0 then d else n)"

section \<open>Numbers and clock readings\<close>

text \<open>
  The numbers the cache computes with: a TTL is any JavaScript number, and an expiry is
  the double that \<^verbatim>\<open>Date.now() + ttl\<close> gives. A finite double is modelled by the real
  number it denotes (the two zeros are one value).
\<close>

datatype jsnum = Finite real | PosInfinity | NegInfinity | NotANumber

text \<open>\<^verbatim>\<open>a < b\<close> and \<^verbatim>\<open>a <= b\<close> on numbers: false when either side is \<open>NaN\<close>.\<close>

fun js_lt :: "jsnum \<Rightarrow> jsnum \<Rightarrow> bool" where
  "js_lt NotANumber b = False"
| "js_lt a NotANumber = False"
| "js_lt (Finite x) (Finite y) = (x < y)"
| "js_lt (Finite x) PosInfinity = True"
| "js_lt (Finite x) NegInfinity = False"
| "js_lt PosInfinity b = False"
| "js_lt NegInfinity NegInfinity = False"
| "js_lt NegInfinity b = True"

fun js_le :: "jsnum \<Rightarrow> jsnum \<Rightarrow> bool" where
  "js_le NotANumber b = False"
| "js_le a NotANumber = False"
| "js_le (Finite x) (Finite y) = (x \<le> y)"
| "js_le (Finite x) PosInfinity = True"
| "js_le (Finite x) NegInfinity = False"
| "js_le PosInfinity PosInfinity = True"
| "js_le PosInfinity b = False"
| "js_le NegInfinity b = True"

text \<open>
  \<^verbatim>\<open>x || d\<close> where \<open>x\<close> is an optional number: the default is taken when \<open>x\<close> is
  missing, zero or \<open>NaN\<close>.
\<close>

definition js_num_or :: "jsnum option \<Rightarrow> jsnum \<Rightarrow> jsnum" where
  "js_num_or x d =
     (case x of
        None \<Rightarrow> d
      | Some n \<Rightarrow> if n = Finite 0 \<or> n = NotANumber then d else n)"

text \<open>
  Rounding a real number to the nearest double (IEEE 754 binary64, ties to even). The
  nearest integer, ties to the even one:
\<close>

definition round_half_even :: "real \<Rightarrow> int" where
  "round_half_even y =
     (let f = \<lfloor>y\<rfloor>; d = y - of_int f
      in if d < 1 / 2 then f
         else if 1 / 2 < d then f + 1
         else if even f then f else f + 1)"

text \<open>
  The exponent of a magnitude \<open>x\<close>: the least \<open>e\<close> from \<open>-1022\<close> (the exponent of the
  subnormal numbers) on with \<open>x < 2 ^ (e + 1)\<close>, and \<open>1024\<close> when there is none up to
  \<open>1023\<close>.
\<close>

fun binade_from :: "real \<Rightarrow> int \<Rightarrow> nat \<Rightarrow> int" where
  "binade_from x e 0 = e"
| "binade_from x e (Suc n) = (if x < 2 powi (e + 1) then e else binade_from x (e + 1) n)"

definition binade :: "real \<Rightarrow> int" where
  "binade x = binade_from x (- 1022) 2046"

text \<open>
  A magnitude is rounded to a multiple of the spacing \<open>2 ^ (e - 52)\<close> of the doubles of
  its exponent; a result of \<open>2 ^ 1024\<close> or more is an overflow (\<open>None\<close>).
\<close>

definition round_unbounded :: "real \<Rightarrow> real" where
  "round_unbounded x =
     (let u = 2 powi (binade x - 52)
      in of_int (round_half_even (x / u)) * u)"

definition round_magnitude :: "real \<Rightarrow> real option" where
  "round_magnitude x =
     (let r = round_unbounded x in if 2 powi 1024 \<le> r then None else Some r)"

definition round_double :: "real \<Rightarrow> jsnum" where
  "round_double x =
     (if 0 \<le> x
      then (case round_magnitude x of None \<Rightarrow> PosInfinity | Some r \<Rightarrow> Finite r)
      else (case round_magnitude (- x) of None \<Rightarrow> NegInfinity | Some r \<Rightarrow> Finite (- r)))"

text \<open>\<^verbatim>\<open>a + b\<close> on numbers: the exact sum of two finite numbers, rounded.\<close>

fun js_add :: "jsnum \<Rightarrow> jsnum \<Rightarrow> jsnum" where
  "js_add NotANumber b = NotANumber"
| "js_add a NotANumber = NotANumber"
| "js_add (Finite x) (Finite y) = round_double (x + y)"
| "js_add PosInfinity NegInfinity = NotANumber"
| "js_add NegInfinity PosInfinity = NotANumber"
| "js_add PosInfinity b = PosInfinity"
| "js_add NegInfinity b = NegInfinity"
| "js_add (Finite x) b = b"

text \<open>
  A clock reading, what \<^verbatim>\<open>Date.now()\<close> returns: a time value of ECMAScript, an
  integer number of milliseconds of magnitude at most \<open>8.64e15\<close>. \<open>ms\<close> gives the
  integer and \<open>at_ms\<close> the reading of an integer in that range. Every reading is a
  double.
\<close>

typedef time_value = "{n :: int. \<bar>n\<bar> \<le> 8640000000000000}"
  morphisms ms at_ms
  by (rule exI [of _ 0]) simp

definition num_of_time :: "time_value \<Rightarrow> jsnum" where
  "num_of_time t = Finite (of_int (ms t))"

section \<open>The cache (src/utils/cache.js)\<close>

text \<open>
  An entry is the object literal \<^verbatim>\<open>{ value, timestamp, expiry }\<close>: the timestamp
  is a clock reading, the expiry the sum of a clock reading and a TTL.
\<close>

record entry =
  e_value :: jsval
  timestamp :: time_value
  expiry :: jsnum

record cache_stats =
  hits :: nat
  misses :: nat
  sets :: nat
  deletes :: nat

text \<open>
  \<^verbatim>\<open>this.store\<close> is a JavaScript \<open>Map\<close>: it iterates in insertion order, writing an
  existing key keeps its place, and a new key goes to the end. That is an association
  list with \<open>AList.update\<close>, \<open>AList.delete\<close> and \<open>map_of\<close>. Keys are strings.
\<close>

record cache =
  store :: "(string \<times> entry) list"
  ttl :: jsnum
  max_entries :: nat
  stats :: cache_stats

text \<open>The constructor: \<^verbatim>\<open>options.ttl || 60 * 1000\<close>, \<^verbatim>\<open>options.max || 1000\<close>.\<close>

definition new_cache :: "jsnum option \<Rightarrow> nat option \<Rightarrow> cache" where
  "new_cache opt_ttl opt_max =
     \<lparr> store = [],
       ttl = js_num_or opt_ttl (Finite (60 * 1000)),
       max_entries = num_or opt_max 1000,
       stats = \<lparr> hits = 0, misses = 0, sets = 0, deletes = 0 \<rparr> \<rparr>"

text \<open>
  The scan of \<^verbatim>\<open>set\<close> for the oldest entry: \<open>oldestKey\<close> starts as \<^verbatim>\<open>null\<close>
  (\<open>None\<close>) and \<open>oldestTime\<close> as the clock reading; an entry replaces them when its
  timestamp is strictly smaller.
\<close>

fun find_oldest ::
  "(string \<times> entry) list \<Rightarrow> string option \<Rightarrow> time_value \<Rightarrow> string option" where
  "find_oldest [] oldestKey oldestTime = oldestKey"
| "find_oldest ((k, e) # rest) oldestKey oldestTime =
     (if ms (timestamp e) < ms oldestTime
      then find_oldest rest (Some k) (timestamp e)
      else find_oldest rest oldestKey oldestTime)"

text \<open>
  The first half of \<^verbatim>\<open>set\<close>: when the store is full, delete the key the scan found.
  \<^verbatim>\<open>if (oldestKey)\<close> is a truthiness test, false for \<^verbatim>\<open>null\<close> and for the empty
  string.
\<close>

definition evict :: "cache \<Rightarrow> time_value \<Rightarrow> (string \<times> entry) list" where
  "evict c now =
     (if length (store c) \<ge> max_entries c then
        (case find_oldest (store c) None now of
           None \<Rightarrow> store c
         | Some oldestKey \<Rightarrow>
             if oldestKey \<noteq> [] then AList.delete oldestKey (store c) else store c)
      else store c)"

text \<open>
  \<^verbatim>\<open>set(key, value, ttl)\<close>. The source reads \<^verbatim>\<open>Date.now()\<close> three times: for the
  scan (\<open>now_scan\<close>, read only when the store is full), for \<open>timestamp\<close> (\<open>now_ts\<close>) and
  for \<open>expiry\<close> (\<open>now_exp\<close>). The three readings are parameters. The result \<^verbatim>\<open>true\<close>
  is constant and left out.
\<close>

definition cache_set ::
  "cache \<Rightarrow> string \<Rightarrow> jsval \<Rightarrow> jsnum option \<Rightarrow> time_value \<Rightarrow> time_value \<Rightarrow> time_value
     \<Rightarrow> cache" where
  "cache_set c key v ttl_arg now_scan now_ts now_exp =
     c\<lparr> store :=
          AList.update key
            \<lparr> e_value = v, timestamp = now_ts,
              expiry = js_add (num_of_time now_exp) (js_num_or ttl_arg (ttl c)) \<rparr>
            (evict c now_scan),
        stats := (stats c)\<lparr> sets := sets (stats c) + 1 \<rparr> \<rparr>"

text \<open>\<^verbatim>\<open>get(key)\<close>: the value returned (\<^verbatim>\<open>undefined\<close> on a miss) and the new cache.\<close>

definition cache_get :: "cache \<Rightarrow> string \<Rightarrow> time_value \<Rightarrow> jsval \<times> cache" where
  "cache_get c key now =
     (case map_of (store c) key of
        None \<Rightarrow> (JUndefined, c\<lparr> stats := (stats c)\<lparr> misses := misses (stats c) + 1 \<rparr> \<rparr>)
      | Some e \<Rightarrow>
          if js_lt (expiry e) (num_of_time now)
          then (JUndefined,
                c\<lparr> store := AList.delete key (store c),
                   stats := (stats c)\<lparr> misses := misses (stats c) + 1 \<rparr> \<rparr>)
          else (e_value e, c\<lparr> stats := (stats c)\<lparr> hits := hits (stats c) + 1 \<rparr> \<rparr>))"

text \<open>\<^verbatim>\<open>has(key)\<close>.\<close>

definition cache_has :: "cache \<Rightarrow> string \<Rightarrow> time_value \<Rightarrow> bool \<times> cache" where
  "cache_has c key now =
     (case map_of (store c) key of
        None \<Rightarrow> (False, c)
      | Some e \<Rightarrow>
          if js_lt (expiry e) (num_of_time now)
          then (False, c\<lparr> store := AList.delete key (store c) \<rparr>)
          else (True, c))"


text \<open>
  \<^verbatim>\<open>clear()\<close>: the store is emptied first, and the size added to the counter is
  read from the emptied store.
\<close>

definition cache_clear :: "cache \<Rightarrow> cache" where
  "cache_clear c =
     (let c1 = c\<lparr> store := [] \<rparr>
      in c1\<lparr> stats := (stats c1)\<lparr> deletes := deletes (stats c1) + length (store c1) \<rparr> \<rparr>)"

text \<open>\<^verbatim>\<open>getStats()\<close>: the counters, the size and \<^verbatim>\<open>hits / (hits + misses) || 0\<close>.\<close>

record stats_report =
  r_hits :: nat
  r_misses :: nat
  r_sets :: nat
  r_deletes :: nat
  r_size :: nat
  hitRate :: jsval

definition getStats :: "cache \<Rightarrow> stats_report" where
  "getStats c =
     \<lparr> r_hits = hits (stats c),
       r_misses = misses (stats c),
       r_sets = sets (stats c),
       r_deletes = deletes (stats c),
       r_size = length (store c),
       hitRate = js_or (js_div (hits (stats c)) (hits (stats c) + misses (stats c))) (JNumber 0) \<rparr>"





text \<open>\<^verbatim>\<open>keys()\<close>: all keys, expired ones too.\<close>

definition cache_keys :: "cache \<Rightarrow> string list" where
  "cache_keys c = map fst (store c)"


section \<open>The market data service (src/services/marketData/index.js)\<close>

text \<open>
  A thrown error: a plain \<open>Error\<close> with its message, or the \<open>AppError\<close> of
  src/utils/errors.js with message, status code and code.
\<close>

datatype js_error = Error string | AppError string nat string

fun message :: "js_error \<Rightarrow> string" where
  "message (Error m) = m"
| "message (AppError m status code) = m"

text \<open>
  A provider is what \<^verbatim>\<open>await provider.getCurrentPrice(symbol)\<close> gives for a symbol: a
  thrown error or a value. \<open>fallbackProviderInstance\<close> may be \<^verbatim>\<open>null\<close>.
\<close>

type_synonym provider = "string \<Rightarrow> js_error + jsval"

record service =
  primaryProvider :: provider
  fallbackProviderInstance :: "provider option"

text \<open>
  What a call does besides returning: the log lines it writes and the provider calls it
  makes, in order.
\<close>

datatype event =
    LogDebug string
  | LogWarn string
  | LogError string
  | PrimaryCall string
  | FallbackCall string

fun is_provider_call :: "event \<Rightarrow> bool" where
  "is_provider_call (PrimaryCall s) = True"
| "is_provider_call (FallbackCall s) = True"
| "is_provider_call (LogDebug s) = False"
| "is_provider_call (LogWarn s) = False"
| "is_provider_call (LogError s) = False"

text \<open>
  \<^verbatim>\<open>String.prototype.toLowerCase\<close> on the ASCII letters; every other character is
  left as it is.
\<close>

definition lower_char :: "char \<Rightarrow> char" where
  "lower_char ch =
     (let n = (of_char ch :: nat)
      in if 65 \<le> n \<and> n \<le> 90 then char_of (n + 32) else ch)"

definition toLowerCase :: "string \<Rightarrow> string" where
  "toLowerCase s = map lower_char s"

definition price_key :: "string \<Rightarrow> string" where
  "price_key symbol = ''price:'' @ toLowerCase symbol"

text \<open>
  \<^verbatim>\<open>getPrice(symbol)\<close> on the module's \<open>priceCache\<close>, which is passed in and returned.
  The result is the rejection (\<open>Inl\<close>) or the price (\<open>Inr\<close>), the cache afterwards and
  the events. \<open>now_get\<close> is the clock reading of the cache lookup; \<open>now_scan\<close>,
  \<open>now_ts\<close> and \<open>now_exp\<close> are those of the \<^verbatim>\<open>priceCache.set\<close> that follows a
  successful fetch.
\<close>

definition getPrice ::
  "service \<Rightarrow> cache \<Rightarrow> string \<Rightarrow> time_value \<Rightarrow> time_value \<Rightarrow> time_value \<Rightarrow> time_value \<Rightarrow>
     (js_error + jsval) \<times> cache \<times> event list" where
  "getPrice svc priceCache symbol now_get now_scan now_ts now_exp =
     (let cacheKey = price_key symbol;
          (cachedPrice, pc) = cache_get priceCache cacheKey now_get
      in if truthy cachedPrice
         then (Inr cachedPrice, pc, [LogDebug (''Using cached price for '' @ symbol)])
         else
           (case primaryProvider svc symbol of
              Inr price \<Rightarrow>
                (Inr price,
                 cache_set pc cacheKey price None now_scan now_ts now_exp,
                 [PrimaryCall symbol])
            | Inl error \<Rightarrow>
                (let warn = LogWarn (''Primary provider failed for '' @ symbol @ '' price: ''
                                      @ message error)
                 in case fallbackProviderInstance svc of
                      Some fallback \<Rightarrow>
                        (case fallback symbol of
                           Inr price \<Rightarrow>
                             (Inr price,
                              cache_set pc cacheKey price None now_scan now_ts now_exp,
                              [PrimaryCall symbol, warn, FallbackCall symbol])
                         | Inl fallbackError \<Rightarrow>
                             (Inl (AppError (''Failed to get price for '' @ symbol
                                              @ '' from any provider'') 500 ''INTERNAL_ERROR''),
                              pc,
                              [PrimaryCall symbol, warn, FallbackCall symbol,
                               LogError (''Fallback provider also failed for '' @ symbol
                                          @ '' price: '' @ message fallbackError)]))
                    | None \<Rightarrow> (Inl error, pc, [PrimaryCall symbol, warn]))))"

section \<open>Properties of the rounding\<close>

lemma round_half_even_of_int: "round_half_even (of_int k) = k"
  by (simp add: round_half_even_def)

lemma round_half_even_bounds: "\<lfloor>y\<rfloor> \<le> round_half_even y \<and> round_half_even y \<le> \<lfloor>y\<rfloor> + 1"
  by (simp add: round_half_even_def Let_def)

lemma round_half_even_mono:
  assumes "y \<le> z"
  shows "round_half_even y \<le> round_half_even z"
proof (cases "\<lfloor>y\<rfloor> = \<lfloor>z\<rfloor>")
  case True
  with assms show ?thesis
    by (auto simp: round_half_even_def Let_def)
next
  case False
  with assms have "\<lfloor>y\<rfloor> + 1 \<le> \<lfloor>z\<rfloor>"
    using floor_mono [of y z] by linarith
  with round_half_even_bounds [of y] round_half_even_bounds [of z] show ?thesis
    by linarith
qed

lemma binade_from_range: "e \<le> binade_from x e n \<and> binade_from x e n \<le> e + int n"
proof (induction n arbitrary: e)
  case 0
  then show ?case by simp
next
  case (Suc n)
  from Suc.IH [of "e + 1"] show ?case by (cases "x < 2 powi (e + 1)") simp_all
qed

lemma binade_from_upper:
  "binade_from x e n < e + int n \<Longrightarrow> x < 2 powi (binade_from x e n + 1)"
proof (induction n arbitrary: e)
  case 0
  then show ?case by simp
next
  case (Suc n)
  show ?case
  proof (cases "x < 2 powi (e + 1)")
    case True
    then show ?thesis by simp
  next
    case False
    with Suc.prems have "binade_from x (e + 1) n < (e + 1) + int n" by simp
    from Suc.IH [OF this] False show ?thesis by simp
  qed
qed

lemma binade_from_lower:
  "e < binade_from x e n \<Longrightarrow> 2 powi (binade_from x e n) \<le> x"
proof (induction n arbitrary: e)
  case 0
  then show ?case by simp
next
  case (Suc n)
  show ?case
  proof (cases "x < 2 powi (e + 1)")
    case True
    with Suc.prems show ?thesis by simp
  next
    case False
    show ?thesis
    proof (cases "e + 1 < binade_from x (e + 1) n")
      case True
      from Suc.IH [OF this] False show ?thesis by simp
    next
      case stay: False
      with binade_from_range [of "e + 1" x n] have "binade_from x (e + 1) n = e + 1" by simp
      with False show ?thesis by simp
    qed
  qed
qed

lemma binade_from_mono:
  "x \<le> y \<Longrightarrow> binade_from x e n \<le> binade_from y e n"
proof (induction n arbitrary: e)
  case 0
  then show ?case by simp
next
  case (Suc n)
  show ?case
  proof (cases "y < 2 powi (e + 1)")
    case True
    with Suc.prems show ?thesis by simp
  next
    case False
    show ?thesis
    proof (cases "x < 2 powi (e + 1)")
      case True
      with False binade_from_range [of "e + 1" y n] show ?thesis by simp
    next
      case both: False
      with False Suc.IH [OF Suc.prems, of "e + 1"] show ?thesis by simp
    qed
  qed
qed

lemma binade_range: "- 1022 \<le> binade x \<and> binade x \<le> 1024"
  using binade_from_range [of "- 1022" x 2046] by (simp add: binade_def)

lemma binade_upper: "binade x < 1024 \<Longrightarrow> x < 2 powi (binade x + 1)"
  using binade_from_upper [of x "- 1022" 2046] by (simp add: binade_def)

lemma binade_lower: "- 1022 < binade x \<Longrightarrow> 2 powi (binade x) \<le> x"
  using binade_from_lower [of "- 1022" x 2046] by (simp add: binade_def)

lemma binade_mono: "x \<le> y \<Longrightarrow> binade x \<le> binade y"
  by (simp add: binade_def binade_from_mono)

lemma binade_eqI:
  assumes lo: "2 powi e \<le> x" and hi: "x < 2 powi (e + 1)"
    and range: "- 1022 < e" "e < 1024"
  shows "binade x = e"
proof (rule ccontr)
  assume ne: "binade x \<noteq> e"
  show False
  proof (cases "binade x < e")
    case True
    with range have "binade x < 1024" by simp
    from binade_upper [OF this] have "x < 2 powi (binade x + 1)" .
    also have "(2::real) powi (binade x + 1) \<le> 2 powi e"
      using True by (intro power_int_increasing) simp_all
    finally show False using lo by simp
  next
    case False
    with ne have gt: "e < binade x" by simp
    with range have "- 1022 < binade x" by simp
    from binade_lower [OF this] have "2 powi (binade x) \<le> x" .
    moreover have "(2::real) powi (e + 1) \<le> 2 powi (binade x)"
      using gt by (intro power_int_increasing) simp_all
    ultimately show False using hi by simp
  qed
qed

lemma round_unbounded_nonneg:
  assumes "0 \<le> x"
  shows "0 \<le> round_unbounded x"
proof -
  let ?u = "(2::real) powi (binade x - 52)"
  have u: "0 < ?u" by simp
  with assms have "0 \<le> x / ?u" by simp
  from round_half_even_mono [OF this] have "0 \<le> round_half_even (x / ?u)"
    using round_half_even_of_int [of 0] by simp
  with u show ?thesis by (simp add: round_unbounded_def Let_def)
qed

lemma round_unbounded_le_next_binade:
  assumes "binade x < 1024"
  shows "round_unbounded x \<le> 2 powi (binade x + 1)"
proof -
  let ?e = "binade x"
  let ?u = "(2::real) powi (?e - 52)"
  have u: "0 < ?u" by simp
  have p: "(2::real) powi 53 = of_int (2 ^ 53)" by simp
  from binade_upper [OF assms] have "x < 2 powi (?e + 1)" .
  then have "x / ?u \<le> 2 powi (?e + 1) / ?u" using u by (simp add: divide_right_mono)
  also have "2 powi (?e + 1) / ?u = (2::real) powi 53"
    by (simp flip: power_int_diff)
  finally have "x / ?u \<le> of_int (2 ^ 53)" using p by simp
  from round_half_even_mono [OF this] have "round_half_even (x / ?u) \<le> 2 ^ 53"
    by (simp only: round_half_even_of_int)
  then have "of_int (round_half_even (x / ?u)) \<le> (2::real) powi 53"
    by (metis p of_int_le_iff)
  then have "of_int (round_half_even (x / ?u)) * ?u \<le> 2 powi 53 * ?u"
    using u by (simp add: mult_right_mono)
  also have "2 powi 53 * ?u = 2 powi (?e + 1)"
    using power_int_add [of "2::real" 53 "?e - 52"] by (simp add: algebra_simps)
  finally show ?thesis by (simp add: round_unbounded_def Let_def)
qed

lemma round_unbounded_ge_binade:
  assumes "- 1022 < binade x"
  shows "2 powi (binade x) \<le> round_unbounded x"
proof -
  let ?e = "binade x"
  let ?u = "(2::real) powi (?e - 52)"
  have u: "0 < ?u" by simp
  have p: "(2::real) powi 52 = of_int (2 ^ 52)" by simp
  from binade_lower [OF assms] have "2 powi ?e \<le> x" .
  then have "2 powi ?e / ?u \<le> x / ?u" using u by (simp add: divide_right_mono)
  moreover have "2 powi ?e / ?u = (2::real) powi 52"
    by (simp flip: power_int_diff)
  ultimately have "of_int (2 ^ 52) \<le> x / ?u" using p by simp
  from round_half_even_mono [OF this] have "2 ^ 52 \<le> round_half_even (x / ?u)"
    by (simp only: round_half_even_of_int)
  then have ge: "(2::real) powi 52 \<le> of_int (round_half_even (x / ?u))"
    by (metis p of_int_le_iff)
  have "(2::real) powi ?e = 2 powi 52 * ?u"
    using power_int_add [of "2::real" 52 "?e - 52"] by (simp add: algebra_simps)
  also have "\<dots> \<le> of_int (round_half_even (x / ?u)) * ?u"
    using ge u by (intro mult_right_mono) simp_all
  finally show ?thesis by (simp add: round_unbounded_def Let_def)
qed

lemma round_unbounded_mono:
  assumes "x \<le> y"
  shows "round_unbounded x \<le> round_unbounded y"
proof (cases "binade x = binade y")
  case True
  let ?u = "(2::real) powi (binade y - 52)"
  have u: "0 < ?u" by simp
  from assms have "x / ?u \<le> y / ?u" using u by (simp add: divide_right_mono)
  from round_half_even_mono [OF this]
  have "of_int (round_half_even (x / ?u)) * ?u \<le> of_int (round_half_even (y / ?u)) * ?u"
    using u by (simp add: mult_right_mono)
  with True show ?thesis by (simp add: round_unbounded_def Let_def)
next
  case False
  with binade_mono [OF assms] have lt: "binade x < binade y" by simp
  with binade_range [of y] have "binade x < 1024" by simp
  from round_unbounded_le_next_binade [OF this]
  have "round_unbounded x \<le> 2 powi (binade x + 1)" .
  also have "(2::real) powi (binade x + 1) \<le> 2 powi (binade y)"
    using lt by (intro power_int_increasing) simp_all
  also have "\<dots> \<le> round_unbounded y"
    using lt binade_range [of x] by (intro round_unbounded_ge_binade) simp
  finally show ?thesis .
qed

lemma round_double_mono:
  assumes "x \<le> y"
  shows "js_le (round_double x) (round_double y)"
proof -
  consider "0 \<le> x" | "x < 0" "0 \<le> y" | "y < 0" using assms by linarith
  then show ?thesis
  proof cases
    case 1
    with assms have "0 \<le> y" by simp
    with 1 round_unbounded_mono [OF assms] show ?thesis
      by (simp add: round_double_def round_magnitude_def Let_def)
  next
    case 2
    with round_unbounded_nonneg [of y] round_unbounded_nonneg [of "- x"] show ?thesis
      by (simp add: round_double_def round_magnitude_def Let_def)
  next
    case 3
    with assms have "x < 0" "- y \<le> - x" by simp_all
    with 3 round_unbounded_mono [of "- y" "- x"] show ?thesis
      by (simp add: round_double_def round_magnitude_def Let_def)
  qed
qed

lemma round_unbounded_int:
  assumes "0 \<le> k" and "k \<le> 2 ^ 53"
  shows "round_unbounded (of_int k) = of_int k"
proof (cases "k = 0")
  case True
  then show ?thesis
    using round_half_even_of_int [of 0] by (simp add: round_unbounded_def Let_def)
next
  case False
  with assms have pos: "1 \<le> k" by simp
  let ?x = "real_of_int k"
  let ?e = "binade ?x"
  let ?u = "(2::real) powi (?e - 52)"
  have x53: "?x \<le> 2 powi 53"
  proof -
    from assms(2) have "?x \<le> real_of_int (2 ^ 53)" by (simp only: of_int_le_iff)
    then show ?thesis by simp
  qed
  have lt1024: "?e < 1024"
  proof (rule ccontr)
    assume "\<not> ?e < 1024"
    with binade_range [of ?x] have e: "?e = 1024" by simp
    then have "- 1022 < ?e" by simp
    from binade_lower [OF this] e have "(2::real) powi 1024 \<le> ?x" by simp
    moreover have "(2::real) powi 53 < 2 powi 1024"
      by (intro power_int_strict_increasing) simp_all
    ultimately show False using x53 by simp
  qed
  from binade_upper [OF lt1024] have hi: "?x < 2 powi (?e + 1)" .
  have ge0: "0 \<le> ?e"
  proof (rule ccontr)
    assume "\<not> 0 \<le> ?e"
    then have "?e + 1 \<le> 0" by simp
    then have "(2::real) powi (?e + 1) \<le> 2 powi 0"
      by (intro power_int_increasing) simp_all
    with hi have "?x < 1" by simp
    with pos show False by simp
  qed
  then have "- 1022 < ?e" by simp
  from binade_lower [OF this] have lo: "2 powi ?e \<le> ?x" .
  have le53: "?e \<le> 53"
  proof (rule ccontr)
    assume "\<not> ?e \<le> 53"
    then have "(53::int) < ?e" by simp
    then have "(2::real) powi 53 < 2 powi ?e"
      by (intro power_int_strict_increasing) simp_all
    with lo x53 show False by simp
  qed
  have "\<exists>m::int. ?x / ?u = of_int m"
  proof (cases "?e \<le> 52")
    case True
    then have "?u = inverse (2 ^ nat (52 - ?e))"
      by (simp add: power_int_def power_one_over inverse_eq_divide)
    then have "?x / ?u = of_int (k * 2 ^ nat (52 - ?e))"
      by (simp add: field_simps)
    then show ?thesis by blast
  next
    case False
    with le53 have e: "?e = 53" by simp
    with lo x53 have "?x = 2 powi 53" by simp
    with e have "?x / ?u = of_int (2 ^ 52)" by simp
    then show ?thesis by blast
  qed
  then obtain m :: int where m: "?x / ?u = of_int m" by blast
  have u: "?u \<noteq> 0" by simp
  from m have "round_half_even (?x / ?u) = m" by (simp only: round_half_even_of_int)
  then have "round_unbounded ?x = of_int m * ?u"
    by (simp add: round_unbounded_def Let_def)
  also have "\<dots> = ?x" using m u by (simp add: field_simps)
  finally show ?thesis .
qed

lemma round_double_int:
  assumes "\<bar>k\<bar> \<le> 2 ^ 53"
  shows "round_double (of_int k) = Finite (of_int k)"
proof -
  have small: "\<not> (2::real) powi 1024 \<le> of_int j" if "j \<le> 2 ^ 53" for j :: int
  proof -
    from that have "real_of_int j \<le> real_of_int (2 ^ 53)" by (simp only: of_int_le_iff)
    then have "real_of_int j \<le> 2 powi 53" by simp
    moreover have "(2::real) powi 53 < 2 powi 1024"
      by (intro power_int_strict_increasing) simp_all
    ultimately show ?thesis by simp
  qed
  show ?thesis
  proof (cases "0 \<le> k")
    case True
    with assms have "k \<le> 2 ^ 53" by simp
    with True round_unbounded_int [of k] small [of k] show ?thesis
      by (simp add: round_double_def round_magnitude_def Let_def)
  next
    case False
    with assms have neg: "0 \<le> - k" "- k \<le> 2 ^ 53" by simp_all
    from round_unbounded_int [OF neg] have "round_unbounded (- real_of_int k) = - real_of_int k"
      by simp
    with False small [OF neg(2)] show ?thesis
      by (simp add: round_double_def round_magnitude_def Let_def)
  qed
qed

lemma round_double_numeral:
  "numeral n \<le> (9007199254740992::int) \<Longrightarrow> round_double (numeral n) = Finite (numeral n)"
  using round_double_int [of "numeral n"] by simp

lemma round_double_ge_int:
  assumes "\<bar>k\<bar> \<le> 2 ^ 53" and "of_int k \<le> x"
  shows "js_le (Finite (of_int k)) (round_double x)"
  using round_double_mono [OF assms(2)] round_double_int [OF assms(1)] by simp

section \<open>Properties of numbers and clock readings\<close>

lemma js_le_not_lt: "js_le a b \<Longrightarrow> \<not> js_lt b a"
  by (cases a; cases b) simp_all


lemma ms_range: "\<bar>ms t\<bar> \<le> 8640000000000000"
  using ms [of t] by simp

lemma ms_at_ms: "\<bar>n\<bar> \<le> 8640000000000000 \<Longrightarrow> ms (at_ms n) = n"
  by (simp add: at_ms_inverse)

lemma add_positive_not_before:
  assumes "js_lt (Finite 0) t"
  shows "\<not> js_lt (js_add (num_of_time now) t) (num_of_time now)"
proof (cases t)
  case (Finite x)
  with assms have "0 < x" by simp
  then have le: "real_of_int (ms now) \<le> real_of_int (ms now) + x" by simp
  have "\<bar>ms now\<bar> \<le> 2 ^ 53" using ms_range [of now] by simp
  from round_double_ge_int [OF this le] Finite show ?thesis
    by (simp add: num_of_time_def js_le_not_lt)
qed (use assms in \<open>simp_all add: num_of_time_def\<close>)


lemma num_of_time_at_ms:
  "\<bar>n\<bar> \<le> 8640000000000000 \<Longrightarrow> num_of_time (at_ms n) = Finite (of_int n)"
  by (simp add: num_of_time_def ms_at_ms)

section \<open>Properties of the cache\<close>

text \<open>
  C8. \<open>clear()\<close> empties the store and changes no counter: the size it adds to
  \<open>deletes\<close> is read after the store was emptied, so it is zero. The default TTL and
  the capacity are untouched as well.
\<close>

theorem clear_empties_store_keeps_counters:
  "store (cache_clear c) = [] \<and>
   deletes (stats (cache_clear c)) = deletes (stats c) \<and>
   hits (stats (cache_clear c)) = hits (stats c) \<and>
   misses (stats (cache_clear c)) = misses (stats c) \<and>
   sets (stats (cache_clear c)) = sets (stats c) \<and>
   stats (cache_clear c) = stats c"
  by (simp add: cache_clear_def)

subsection \<open>The scan and the size of the store\<close>

lemma find_oldest_cases:
  "find_oldest al ok t = Some k \<Longrightarrow>
     (ok = Some k \<and> (\<forall>(k', e') \<in> set al. ms t \<le> ms (timestamp e'))) \<or>
     (\<exists>e. (k, e) \<in> set al \<and> ms (timestamp e) < ms t \<and>
          (\<forall>(k', e') \<in> set al. ms (timestamp e) \<le> ms (timestamp e')))"
proof (induction al arbitrary: ok t)
  case Nil
  then show ?case by simp
next
  case (Cons p rest)
  obtain k0 e0 where p: "p = (k0, e0)" by (cases p)
  show ?case
  proof (cases "ms (timestamp e0) < ms t")
    case True
    with Cons.prems p have "find_oldest rest (Some k0) (timestamp e0) = Some k" by simp
    from Cons.IH [OF this] show ?thesis
    proof
      assume a: "Some k0 = Some k \<and>
                 (\<forall>(k', e') \<in> set rest. ms (timestamp e0) \<le> ms (timestamp e'))"
      then have "(k, e0) \<in> set (p # rest)" using p by simp
      moreover have "\<forall>(k', e') \<in> set (p # rest). ms (timestamp e0) \<le> ms (timestamp e')"
        using a p by auto
      ultimately show ?thesis using True by blast
    next
      assume "\<exists>e. (k, e) \<in> set rest \<and> ms (timestamp e) < ms (timestamp e0) \<and>
                (\<forall>(k', e') \<in> set rest. ms (timestamp e) \<le> ms (timestamp e'))"
      then obtain e where e: "(k, e) \<in> set rest" "ms (timestamp e) < ms (timestamp e0)"
        "\<forall>(k', e') \<in> set rest. ms (timestamp e) \<le> ms (timestamp e')" by blast
      have "\<forall>(k', e') \<in> set (p # rest). ms (timestamp e) \<le> ms (timestamp e')"
        using e(2,3) p by auto
      moreover have "(k, e) \<in> set (p # rest)" using e(1) by simp
      moreover have "ms (timestamp e) < ms t" using e(2) True by simp
      ultimately show ?thesis by blast
    qed
  next
    case False
    with Cons.prems p have "find_oldest rest ok t = Some k" by simp
    from Cons.IH [OF this] show ?thesis
    proof
      assume "ok = Some k \<and> (\<forall>(k', e') \<in> set rest. ms t \<le> ms (timestamp e'))"
      then have "ok = Some k \<and> (\<forall>(k', e') \<in> set (p # rest). ms t \<le> ms (timestamp e'))"
        using False p by auto
      then show ?thesis by blast
    next
      assume "\<exists>e. (k, e) \<in> set rest \<and> ms (timestamp e) < ms t \<and>
                (\<forall>(k', e') \<in> set rest. ms (timestamp e) \<le> ms (timestamp e'))"
      then obtain e where e: "(k, e) \<in> set rest" "ms (timestamp e) < ms t"
        "\<forall>(k', e') \<in> set rest. ms (timestamp e) \<le> ms (timestamp e')" by blast
      have "\<forall>(k', e') \<in> set (p # rest). ms (timestamp e) \<le> ms (timestamp e')"
        using e(2,3) p False by auto
      moreover have "(k, e) \<in> set (p # rest)" using e(1) by simp
      ultimately show ?thesis using e(2) by blast
    qed
  qed
qed

lemma find_oldest_None:
  "find_oldest al None t = Some k \<Longrightarrow>
     \<exists>e. (k, e) \<in> set al \<and> ms (timestamp e) < ms t \<and>
         (\<forall>(k', e') \<in> set al. ms (timestamp e) \<le> ms (timestamp e'))"
  using find_oldest_cases [of al None t k] by simp

lemma length_delete_present:
  "distinct (map fst al) \<Longrightarrow> k \<in> fst ` set al \<Longrightarrow> Suc (length (AList.delete k al)) = length al"
  by (induction al) (auto simp: rev_image_eqI)

lemma length_update_present:
  "k \<in> fst ` set al \<Longrightarrow> length (AList.update k v al) = length al"
  by (induction al) auto

lemma find_oldest_none_found:
  "find_oldest al ok t = None \<Longrightarrow>
     ok = None \<and> (\<forall>(k, e) \<in> set al. ms t \<le> ms (timestamp e))"
proof (induction al arbitrary: ok t)
  case Nil
  then show ?case by simp
next
  case (Cons p rest)
  obtain k0 e0 where p: "p = (k0, e0)" by (cases p)
  show ?case
  proof (cases "ms (timestamp e0) < ms t")
    case True
    with Cons.prems p have "find_oldest rest (Some k0) (timestamp e0) = None" by simp
    from Cons.IH [OF this] show ?thesis by simp
  next
    case False
    with Cons.prems p have "find_oldest rest ok t = None" by simp
    from Cons.IH [OF this] False p show ?thesis by auto
  qed
qed

lemma length_update_le: "length (AList.update k v al) \<le> Suc (length al)"
  by (induction al) auto

subsection \<open>Capacity\<close>

text \<open>
  C1. The claim is that the number of stored entries never exceeds the capacity after a
  \<open>set\<close>. The scan starts from the current clock reading and only takes an entry whose
  timestamp is strictly smaller, so an entry written in the same millisecond is never
  chosen: with capacity 1, two \<open>set\<close> calls on different keys at clock reading 1000 leave
  two entries in the store.
\<close>

theorem set_same_millisecond_exceeds_capacity:
  "length (store (cache_set (cache_set (new_cache None (Some 1))
                    ''a'' (JNumber 1) None (at_ms 1000) (at_ms 1000) (at_ms 1000))
                    ''b'' (JNumber 2) None (at_ms 1000) (at_ms 1000) (at_ms 1000))) = 2 \<and>
   max_entries (cache_set (cache_set (new_cache None (Some 1))
                    ''a'' (JNumber 1) None (at_ms 1000) (at_ms 1000) (at_ms 1000))
                    ''b'' (JNumber 2) None (at_ms 1000) (at_ms 1000) (at_ms 1000)) = 1"
  by (simp add: cache_set_def new_cache_def evict_def num_or_def)

text \<open>
  The bound does hold for a \<open>set\<close> whose scan reads a clock later than every stored
  timestamp, on a store without the empty key.
\<close>

lemma set_within_capacity_when_clock_advanced:
  assumes dist: "distinct (map fst (store c))"
    and bound: "length (store c) \<le> max_entries c"
    and pos: "0 < max_entries c"
    and older: "\<forall>(k, e) \<in> set (store c). k \<noteq> [] \<and> ms (timestamp e) < ms now_scan"
  shows "length (store (cache_set c key v ttl_arg now_scan now_ts now_exp)) \<le> max_entries c"
proof (cases "max_entries c \<le> length (store c)")
  case False
  then have "evict c now_scan = store c" by (simp add: evict_def)
  then have "length (store (cache_set c key v ttl_arg now_scan now_ts now_exp))
               \<le> Suc (length (store c))"
    by (simp add: cache_set_def length_update_le)
  with False show ?thesis by simp
next
  case True
  with pos have "store c \<noteq> []" by auto
  then obtain k0 e0 where in0: "(k0, e0) \<in> set (store c)"
    by (cases "store c") auto
  with older have "ms (timestamp e0) < ms now_scan" by auto
  with in0 have "find_oldest (store c) None now_scan \<noteq> None"
    using find_oldest_none_found [of "store c" None now_scan] by fastforce
  then obtain k' where victim: "find_oldest (store c) None now_scan = Some k'" by auto
  from find_oldest_None [OF victim] obtain e' where in': "(k', e') \<in> set (store c)" by blast
  with older have ne: "k' \<noteq> []" by auto
  from in' have "k' \<in> fst ` set (store c)" by force
  from length_delete_present [OF dist this]
  have len: "Suc (length (AList.delete k' (store c))) = length (store c)" .
  have "evict c now_scan = AList.delete k' (store c)"
    using True victim ne by (simp add: evict_def)
  then have "length (store (cache_set c key v ttl_arg now_scan now_ts now_exp))
               \<le> Suc (length (AList.delete k' (store c)))"
    by (simp add: cache_set_def length_update_le)
  with len bound show ?thesis by simp
qed

subsection \<open>Expiry\<close>

text \<open>
  C4. For a TTL \<open>t > 0\<close>: after \<open>set(k, v, t)\<close>, a \<open>get(k)\<close> at the clock reading of the
  \<open>set\<close>, and at any reading up to the expiry \<open>now_exp + t\<close>, returns \<open>v\<close>; at any
  reading past the expiry \<open>get(k)\<close> returns \<open>undefined\<close> and removes the entry, and
  \<open>has(k)\<close> is false, whether it is called in place of that \<open>get\<close> or after it.
\<close>

theorem set_then_get_until_expiry:
  assumes "js_lt (Finite 0) t"
  shows "fst (cache_get (cache_set c k v (Some t) now_scan now_ts now_exp) k now_exp) = v \<and>
   (\<forall>now. js_le (num_of_time now) (js_add (num_of_time now_exp) t) \<longrightarrow>
      fst (cache_get (cache_set c k v (Some t) now_scan now_ts now_exp) k now) = v) \<and>
   (\<forall>now. js_lt (js_add (num_of_time now_exp) t) (num_of_time now) \<longrightarrow>
      fst (cache_get (cache_set c k v (Some t) now_scan now_ts now_exp) k now) = JUndefined \<and>
      map_of (store (snd (cache_get (cache_set c k v (Some t) now_scan now_ts now_exp) k now))) k
        = None \<and>
      fst (cache_has (cache_set c k v (Some t) now_scan now_ts now_exp) k now) = False \<and>
      fst (cache_has (snd (cache_get (cache_set c k v (Some t) now_scan now_ts now_exp) k now))
             k now) = False)"
proof -
  let ?c1 = "cache_set c k v (Some t) now_scan now_ts now_exp"
  let ?x = "js_add (num_of_time now_exp) t"
  from assms have eff: "js_num_or (Some t) (ttl c) = t"
    by (cases t) (auto simp: js_num_or_def)
  have stored: "map_of (store ?c1) k = Some \<lparr> e_value = v, timestamp = now_ts, expiry = ?x \<rparr>"
    by (simp add: cache_set_def update_conv' eff)
  have at_once: "fst (cache_get ?c1 k now_exp) = v"
    using add_positive_not_before [OF assms, of now_exp] by (simp add: cache_get_def stored)
  have before: "fst (cache_get ?c1 k now) = v" if "js_le (num_of_time now) ?x" for now
    using js_le_not_lt [OF that] by (simp add: cache_get_def stored)
  have after: "fst (cache_get ?c1 k now) = JUndefined \<and>
      map_of (store (snd (cache_get ?c1 k now))) k = None \<and>
      fst (cache_has ?c1 k now) = False \<and>
      fst (cache_has (snd (cache_get ?c1 k now)) k now) = False"
    if "js_lt ?x (num_of_time now)" for now
    using that by (simp add: cache_get_def cache_has_def stored delete_conv')
  from at_once before after show ?thesis by blast
qed

text \<open>
  The scenario of the specification: \<open>set('BTC', 50000, 60000)\<close>, then \<open>get('BTC')\<close> at
  once, and again 61 seconds later.
\<close>

theorem set_then_get_until_expiry_witness:
  "js_lt (Finite 0) (Finite 60000) \<and>
   js_lt (js_add (num_of_time (at_ms 0)) (Finite 60000)) (num_of_time (at_ms 61000)) \<and>
   fst (cache_get (cache_set (new_cache None None) ''BTC'' (JNumber 50000) (Some (Finite 60000))
          (at_ms 0) (at_ms 0) (at_ms 0)) ''BTC'' (at_ms 0)) = JNumber 50000 \<and>
   fst (cache_get (cache_set (new_cache None None) ''BTC'' (JNumber 50000) (Some (Finite 60000))
          (at_ms 0) (at_ms 0) (at_ms 0)) ''BTC'' (at_ms 61000)) = JUndefined \<and>
   fst (cache_has (cache_set (new_cache None None) ''BTC'' (JNumber 50000) (Some (Finite 60000))
          (at_ms 0) (at_ms 0) (at_ms 0)) ''BTC'' (at_ms 61000)) = False"
proof -
  have pos: "js_lt (Finite 0) (Finite 60000)" by simp
  have late: "js_lt (js_add (num_of_time (at_ms 0)) (Finite 60000)) (num_of_time (at_ms 61000))"
    by (simp add: num_of_time_at_ms round_double_numeral)
  note inst = set_then_get_until_expiry [OF pos, where c = "new_cache None None"
      and k = "''BTC''" and v = "JNumber 50000" and now_scan = "at_ms 0" and now_ts = "at_ms 0"
      and now_exp = "at_ms 0"]
  note at_once = inst [THEN conjunct1]
  note expired = inst [THEN conjunct2, THEN conjunct2, rule_format, OF late]
  note gone = expired [THEN conjunct1]
  note has_not = expired [THEN conjunct2, THEN conjunct2, THEN conjunct1]
  from pos late at_once gone has_not show ?thesis by (intro conjI)
qed

subsection \<open>Hit rate\<close>

text \<open>
  C5. With \<open>h\<close> hits and \<open>m\<close> misses recorded: if \<open>h + m > 0\<close> the reported hit rate is
  \<open>h / (h + m)\<close>, and if both are zero it is \<open>0\<close>; it is never \<open>NaN\<close>. The division is
  exact here.
\<close>

theorem getStats_hitRate:
  "(0 < hits (stats c) + misses (stats c) \<longrightarrow>
      hitRate (getStats c) =
        JNumber (real (hits (stats c)) / real (hits (stats c) + misses (stats c)))) \<and>
   (hits (stats c) = 0 \<and> misses (stats c) = 0 \<longrightarrow> hitRate (getStats c) = JNumber 0) \<and>
   hitRate (getStats c) \<noteq> JNaN"
  by (auto simp: getStats_def js_or_def js_div_def)

text \<open>
  A fresh cache reports 0; after one \<open>set\<close>, one hit and one miss the rate is one half.
\<close>

theorem getStats_hitRate_witness:
  "hits (stats (new_cache None None)) = 0 \<and> misses (stats (new_cache None None)) = 0 \<and>
   hitRate (getStats (new_cache None None)) = JNumber 0 \<and>
   0 < hits (stats (snd (cache_get (snd (cache_get
         (cache_set (new_cache None None) ''k'' (JNumber 5) None (at_ms 0) (at_ms 0) (at_ms 0))
         ''k'' (at_ms 1))) ''x'' (at_ms 2)))) +
       misses (stats (snd (cache_get (snd (cache_get
         (cache_set (new_cache None None) ''k'' (JNumber 5) None (at_ms 0) (at_ms 0) (at_ms 0))
         ''k'' (at_ms 1))) ''x'' (at_ms 2)))) \<and>
   hitRate (getStats (snd (cache_get (snd (cache_get
         (cache_set (new_cache None None) ''k'' (JNumber 5) None (at_ms 0) (at_ms 0) (at_ms 0))
         ''k'' (at_ms 1))) ''x'' (at_ms 2))))
     = JNumber (1 / 2)"
proof -
  let ?c = "snd (cache_get (snd (cache_get
         (cache_set (new_cache None None) ''k'' (JNumber 5) None (at_ms 0) (at_ms 0) (at_ms 0))
         ''k'' (at_ms 1))) ''x'' (at_ms 2))"
  have fresh: "hits (stats (new_cache None None)) = 0 \<and> misses (stats (new_cache None None)) = 0"
    by (simp add: new_cache_def)
  have h: "hits (stats ?c) = 1" and m: "misses (stats ?c) = 1"
    by (simp_all add: cache_get_def cache_set_def new_cache_def evict_def num_or_def
        js_num_or_def num_of_time_at_ms round_double_numeral)
  have used: "0 < hits (stats ?c) + misses (stats ?c)" using h m by simp
  note rate_inst = getStats_hitRate [of ?c, THEN conjunct1, rule_format, OF used]
  then have rate: "hitRate (getStats ?c) = JNumber (1 / 2)" by (simp add: h m)
  note zero = getStats_hitRate [of "new_cache None None", THEN conjunct2, THEN conjunct1,
      rule_format, OF fresh]
  from fresh zero used rate show ?thesis by (intro conjI) simp_all
qed

subsection \<open>What a lookup changes\<close>

text \<open>
  C10. \<open>get(key)\<close> adds one to exactly one of \<open>hits\<close> and \<open>misses\<close>, leaves \<open>sets\<close>,
  \<open>deletes\<close>, the default TTL and the capacity alone, and leaves the store as it was
  or with the queried key deleted, the latter only when that key's entry had expired;
  every other key keeps its entry.
\<close>

theorem get_counts_once_and_touches_only_its_key:
  "((hits (stats (snd (cache_get c key now))) = hits (stats c) + 1 \<and>
     misses (stats (snd (cache_get c key now))) = misses (stats c)) \<or>
    (hits (stats (snd (cache_get c key now))) = hits (stats c) \<and>
     misses (stats (snd (cache_get c key now))) = misses (stats c) + 1)) \<and>
   sets (stats (snd (cache_get c key now))) = sets (stats c) \<and>
   deletes (stats (snd (cache_get c key now))) = deletes (stats c) \<and>
   ttl (snd (cache_get c key now)) = ttl c \<and>
   max_entries (snd (cache_get c key now)) = max_entries c \<and>
   (\<forall>k. k \<noteq> key \<longrightarrow> map_of (store (snd (cache_get c key now))) k = map_of (store c) k) \<and>
   (store (snd (cache_get c key now)) = store c \<or>
    (store (snd (cache_get c key now)) = AList.delete key (store c) \<and>
     (\<exists>e. map_of (store c) key = Some e \<and> js_lt (expiry e) (num_of_time now))))"
  by (auto simp: cache_get_def delete_conv' split: option.splits)

theorem get_counts_once_and_touches_only_its_key_witness:
  "''b'' \<noteq> ''a'' \<and>
   map_of (store (snd (cache_get
     \<lparr> store = [(''a'', \<lparr> e_value = JNumber 1, timestamp = at_ms 0, expiry = Finite 10 \<rparr>),
                 (''b'', \<lparr> e_value = JNumber 2, timestamp = at_ms 0, expiry = Finite 500 \<rparr>)],
       ttl = Finite 60000, max_entries = 1000,
       stats = \<lparr> hits = 0, misses = 0, sets = 2, deletes = 0 \<rparr> \<rparr> ''a'' (at_ms 100)))) ''b''
     = Some \<lparr> e_value = JNumber 2, timestamp = at_ms 0, expiry = Finite 500 \<rparr> \<and>
   map_of (store (snd (cache_get
     \<lparr> store = [(''a'', \<lparr> e_value = JNumber 1, timestamp = at_ms 0, expiry = Finite 10 \<rparr>),
                 (''b'', \<lparr> e_value = JNumber 2, timestamp = at_ms 0, expiry = Finite 500 \<rparr>)],
       ttl = Finite 60000, max_entries = 1000,
       stats = \<lparr> hits = 0, misses = 0, sets = 2, deletes = 0 \<rparr> \<rparr> ''a'' (at_ms 100)))) ''a''
     = None"
proof -
  let ?c = "\<lparr> store = [(''a'', \<lparr> e_value = JNumber 1, timestamp = at_ms 0, expiry = Finite 10 \<rparr>),
                 (''b'', \<lparr> e_value = JNumber 2, timestamp = at_ms 0, expiry = Finite 500 \<rparr>)],
       ttl = Finite 60000, max_entries = 1000,
       stats = \<lparr> hits = 0, misses = 0, sets = 2, deletes = 0 \<rparr> \<rparr>"
  have ne: "''b'' \<noteq> ''a''" by simp
  note frame = get_counts_once_and_touches_only_its_key [of ?c "''a''" "at_ms 100",
      THEN conjunct2, THEN conjunct2, THEN conjunct2, THEN conjunct2, THEN conjunct2,
      THEN conjunct1, rule_format]
  from frame [OF ne]
  have "map_of (store (snd (cache_get ?c ''a'' (at_ms 100)))) ''b'' = map_of (store ?c) ''b''" .
  then have b: "map_of (store (snd (cache_get ?c ''a'' (at_ms 100)))) ''b''
     = Some \<lparr> e_value = JNumber 2, timestamp = at_ms 0, expiry = Finite 500 \<rparr>" by simp
  have a: "map_of (store (snd (cache_get ?c ''a'' (at_ms 100)))) ''a'' = None"
    by (simp add: cache_get_def num_of_time_at_ms)
  from ne a b show ?thesis by (intro conjI)
qed

subsection \<open>Expiry after creation\<close>







text \<open>
  A positive TTL is not enough either: the sum is a double, and at the clock reading
  \<open>1700000000000\<close> the doubles are \<open>2 ^ -12\<close> apart, so the TTL \<open>0.0001\<close> is rounded away
  and the entry's expiry equals its timestamp.
\<close>

lemma round_double_tiny_addend:
  "round_double (1700000000000 + 1 / 10000) = Finite 1700000000000"
proof -
  define x :: real where "x = 1700000000000 + 1 / 10000"
  have b: "binade x = 40"
    by (rule binade_eqI) (simp_all add: x_def)
  have r: "round_half_even (x / 2 powi (40 - 52)) = 6963200000000000"
    by (simp add: x_def round_half_even_def Let_def)
  have "round_unbounded x = of_int 6963200000000000 * 2 powi (40 - 52)"
    unfolding round_unbounded_def Let_def b r ..
  then have ru: "round_unbounded x = 1700000000000" by simp
  have "0 \<le> x" by (simp add: x_def)
  with ru have "round_double x = Finite 1700000000000"
    by (simp add: round_double_def round_magnitude_def Let_def)
  then show ?thesis unfolding x_def .
qed

lemma set_tiny_positive_ttl_expiry_equals_creation:
  "js_lt (Finite 0) (Finite (1 / 10000)) \<and>
   map_of (store (cache_set (new_cache None None) ''k'' (JNumber 1) (Some (Finite (1 / 10000)))
             (at_ms 1700000000000) (at_ms 1700000000000) (at_ms 1700000000000))) ''k''
     = Some \<lparr> e_value = JNumber 1, timestamp = at_ms 1700000000000,
              expiry = Finite 1700000000000 \<rparr> \<and>
   \<not> js_lt (num_of_time (at_ms 1700000000000)) (Finite 1700000000000)"
proof -
  have "js_add (num_of_time (at_ms 1700000000000)) (Finite (1 / 10000))
          = round_double (1700000000000 + 1 / 10000)"
    by (simp add: num_of_time_at_ms)
  then have sum: "js_add (num_of_time (at_ms 1700000000000)) (Finite (1 / 10000))
          = Finite 1700000000000"
    by (simp only: round_double_tiny_addend)
  have eff: "js_num_or (Some (Finite (1 / 10000))) (ttl (new_cache None None)) = Finite (1 / 10000)"
    by (simp add: js_num_or_def)
  have "map_of (store (cache_set (new_cache None None) ''k'' (JNumber 1)
             (Some (Finite (1 / 10000)))
             (at_ms 1700000000000) (at_ms 1700000000000) (at_ms 1700000000000))) ''k''
     = Some \<lparr> e_value = JNumber 1, timestamp = at_ms 1700000000000,
              expiry = Finite 1700000000000 \<rparr>"
    unfolding cache_set_def eff sum by (simp add: update_conv')
  then show ?thesis by (simp add: num_of_time_at_ms)
qed



subsection \<open>Overwriting a key of a full cache\<close>

text \<open>
  C9. \<open>set\<close> on a full cache runs the eviction before it writes, also when the key is
  already stored. When the scan finds a victim other than that key, the victim (an entry
  of smallest timestamp, older than the clock reading of the scan) is deleted, the key is
  overwritten in place, and the store has one entry less than before. Keys of the store
  are distinct, as they are in a \<open>Map\<close>.
\<close>

theorem set_existing_key_at_capacity_evicts:
  assumes dist: "distinct (map fst (store c))"
    and full: "max_entries c \<le> length (store c)"
    and present: "map_of (store c) key = Some old"
    and victim: "find_oldest (store c) None now_scan = Some k'"
    and ne: "k' \<noteq> []" and other: "k' \<noteq> key"
  shows "store (cache_set c key v ttl_arg now_scan now_ts now_exp) =
           AList.update key
             \<lparr> e_value = v, timestamp = now_ts,
               expiry = js_add (num_of_time now_exp) (js_num_or ttl_arg (ttl c)) \<rparr>
             (AList.delete k' (store c)) \<and>
         (\<exists>e. map_of (store c) k' = Some e \<and> ms (timestamp e) < ms now_scan \<and>
              (\<forall>(k2, e2) \<in> set (store c). ms (timestamp e) \<le> ms (timestamp e2))) \<and>
         map_of (store (cache_set c key v ttl_arg now_scan now_ts now_exp)) k' = None \<and>
         map_of (store (cache_set c key v ttl_arg now_scan now_ts now_exp)) key =
           Some \<lparr> e_value = v, timestamp = now_ts,
                  expiry = js_add (num_of_time now_exp) (js_num_or ttl_arg (ttl c)) \<rparr> \<and>
         Suc (length (store (cache_set c key v ttl_arg now_scan now_ts now_exp))) = length (store c)"
proof -
  let ?new = "\<lparr> e_value = v, timestamp = now_ts,
                 expiry = js_add (num_of_time now_exp) (js_num_or ttl_arg (ttl c)) \<rparr>"
  let ?c' = "cache_set c key v ttl_arg now_scan now_ts now_exp"
  have st: "store ?c' = AList.update key ?new (AList.delete k' (store c))"
    using full victim ne by (simp add: cache_set_def evict_def)
  from find_oldest_None [OF victim] obtain e where
    e: "(k', e) \<in> set (store c)" "ms (timestamp e) < ms now_scan"
       "\<forall>(k2, e2) \<in> set (store c). ms (timestamp e) \<le> ms (timestamp e2)" by blast
  from e(1) dist have look: "map_of (store c) k' = Some e" by simp
  have gone: "map_of (store ?c') k' = None"
    using other by (simp add: st update_conv' delete_conv')
  have there: "map_of (store ?c') key = Some ?new"
    by (simp add: st update_conv')
  have "key \<in> fst ` set (AList.delete k' (store c))"
    using present other by (metis delete_conv' fun_upd_other map_of_eq_None_iff option.distinct(1))
  then have "length (store ?c') = length (AList.delete k' (store c))"
    by (simp add: st length_update_present)
  moreover have "k' \<in> fst ` set (store c)" using e(1) by force
  ultimately have len: "Suc (length (store ?c')) = length (store c)"
    using length_delete_present [OF dist] by simp
  show ?thesis using st look e(2,3) gone there len by blast
qed

theorem set_existing_key_at_capacity_evicts_witness:
  "distinct (map fst [(''a'', \<lparr> e_value = JNumber 1, timestamp = at_ms 1, expiry = Finite 60001 \<rparr>),
                      (''b'', \<lparr> e_value = JNumber 2, timestamp = at_ms 2, expiry = Finite 60002 \<rparr>)]) \<and>
   find_oldest [(''a'', \<lparr> e_value = JNumber 1, timestamp = at_ms 1, expiry = Finite 60001 \<rparr>),
                (''b'', \<lparr> e_value = JNumber 2, timestamp = at_ms 2, expiry = Finite 60002 \<rparr>)]
       None (at_ms 3) = Some ''a'' \<and>
   ''a'' \<noteq> ''b'' \<and>
   store (cache_set
     \<lparr> store = [(''a'', \<lparr> e_value = JNumber 1, timestamp = at_ms 1, expiry = Finite 60001 \<rparr>),
                 (''b'', \<lparr> e_value = JNumber 2, timestamp = at_ms 2, expiry = Finite 60002 \<rparr>)],
       ttl = Finite 60000, max_entries = 2,
       stats = \<lparr> hits = 0, misses = 0, sets = 2, deletes = 0 \<rparr> \<rparr>
     ''b'' (JNumber 7) None (at_ms 3) (at_ms 3) (at_ms 3))
     = [(''b'', \<lparr> e_value = JNumber 7, timestamp = at_ms 3, expiry = Finite 60003 \<rparr>)] \<and>
   Suc (length (store (cache_set
     \<lparr> store = [(''a'', \<lparr> e_value = JNumber 1, timestamp = at_ms 1, expiry = Finite 60001 \<rparr>),
                 (''b'', \<lparr> e_value = JNumber 2, timestamp = at_ms 2, expiry = Finite 60002 \<rparr>)],
       ttl = Finite 60000, max_entries = 2,
       stats = \<lparr> hits = 0, misses = 0, sets = 2, deletes = 0 \<rparr> \<rparr>
     ''b'' (JNumber 7) None (at_ms 3) (at_ms 3) (at_ms 3)))) = 2"
proof -
  let ?st = "[(''a'', \<lparr> e_value = JNumber 1, timestamp = at_ms 1, expiry = Finite 60001 \<rparr>),
              (''b'', \<lparr> e_value = JNumber 2, timestamp = at_ms 2, expiry = Finite 60002 \<rparr>)]"
  let ?c = "\<lparr> store = ?st, ttl = Finite 60000, max_entries = 2,
       stats = \<lparr> hits = 0, misses = 0, sets = 2, deletes = 0 \<rparr> \<rparr>"
  have dist: "distinct (map fst (store ?c))" by simp
  have full: "max_entries ?c \<le> length (store ?c)" by simp
  have present: "map_of (store ?c) ''b''
      = Some \<lparr> e_value = JNumber 2, timestamp = at_ms 2, expiry = Finite 60002 \<rparr>"
    by simp
  have victim: "find_oldest (store ?c) None (at_ms 3) = Some ''a''" by (simp add: ms_at_ms)
  have ne: "''a'' \<noteq> []" and other: "''a'' \<noteq> ''b''" by simp_all
  note inst = set_existing_key_at_capacity_evicts [OF dist full present victim ne other,
      where v = "JNumber 7" and ttl_arg = None and now_ts = "at_ms 3" and now_exp = "at_ms 3"]
  from inst have st: "store (cache_set ?c ''b'' (JNumber 7) None (at_ms 3) (at_ms 3) (at_ms 3)) =
      [(''b'', \<lparr> e_value = JNumber 7, timestamp = at_ms 3, expiry = Finite 60003 \<rparr>)]"
    by (simp add: js_num_or_def num_of_time_at_ms round_double_numeral)
  from inst have len: "Suc (length (store (cache_set ?c ''b'' (JNumber 7) None
      (at_ms 3) (at_ms 3) (at_ms 3)))) = 2"
    by simp
  from dist victim other st len show ?thesis by simp
qed

section \<open>Properties of the market data service\<close>

lemma price_key_BTC: "price_key ''BTC'' = ''price:btc''"
  by code_simp

lemma price_key_ETH: "price_key ''ETH'' = ''price:eth''"
  by code_simp

subsection \<open>A cached price\<close>

text \<open>
  C6. The claim is that a present, unexpired entry is returned without a provider call
  whatever the cached value is. \<open>getPrice\<close> tests the value it got from the cache for
  truthiness: with the price \<open>0\<close> cached and not expired, it calls the primary provider
  and returns that provider's price.
\<close>

theorem getPrice_cached_zero_calls_provider:
  "map_of (store \<lparr> store = [(''price:btc'', \<lparr> e_value = JNumber 0, timestamp = at_ms 0, expiry = Finite 300000 \<rparr>)],
                    ttl = Finite 300000, max_entries = 100,
                    stats = \<lparr> hits = 0, misses = 0, sets = 1, deletes = 0 \<rparr> \<rparr>) (price_key ''BTC'')
     = Some \<lparr> e_value = JNumber 0, timestamp = at_ms 0, expiry = Finite 300000 \<rparr> \<and>
   \<not> js_lt (expiry \<lparr> e_value = JNumber 0, timestamp = at_ms 0, expiry = Finite 300000 \<rparr>)
          (num_of_time (at_ms 1000)) \<and>
   fst (getPrice \<lparr> primaryProvider = (\<lambda>s. Inr (JNumber 42)), fallbackProviderInstance = None \<rparr>
          \<lparr> store = [(''price:btc'', \<lparr> e_value = JNumber 0, timestamp = at_ms 0, expiry = Finite 300000 \<rparr>)],
            ttl = Finite 300000, max_entries = 100,
            stats = \<lparr> hits = 0, misses = 0, sets = 1, deletes = 0 \<rparr> \<rparr>
          ''BTC'' (at_ms 1000) (at_ms 1000) (at_ms 1000) (at_ms 1000)) = Inr (JNumber 42) \<and>
   snd (snd (getPrice \<lparr> primaryProvider = (\<lambda>s. Inr (JNumber 42)), fallbackProviderInstance = None \<rparr>
          \<lparr> store = [(''price:btc'', \<lparr> e_value = JNumber 0, timestamp = at_ms 0, expiry = Finite 300000 \<rparr>)],
            ttl = Finite 300000, max_entries = 100,
            stats = \<lparr> hits = 0, misses = 0, sets = 1, deletes = 0 \<rparr> \<rparr>
          ''BTC'' (at_ms 1000) (at_ms 1000) (at_ms 1000) (at_ms 1000))) = [PrimaryCall ''BTC'']"
  by (simp add: getPrice_def Let_def cache_get_def price_key_BTC num_of_time_at_ms)

text \<open>
  C6, as the code has it. For a key whose entry is present, not expired and holds a
  truthy value, \<open>getPrice\<close> returns that value, counts a hit, leaves the store as it is,
  logs one debug line and calls no provider, whatever the providers are.
\<close>

theorem getPrice_serves_truthy_cached_value:
  assumes "map_of (store pc) (price_key symbol) = Some e"
    and "\<not> js_lt (expiry e) (num_of_time now_get)"
    and "truthy (e_value e)"
  shows "getPrice svc pc symbol now_get now_scan now_ts now_exp =
           (Inr (e_value e),
            pc\<lparr> stats := (stats pc)\<lparr> hits := hits (stats pc) + 1 \<rparr> \<rparr>,
            [LogDebug (''Using cached price for '' @ symbol)]) \<and>
         \<not> list_ex is_provider_call (snd (snd (getPrice svc pc symbol now_get now_scan now_ts now_exp)))"
  using assms by (simp add: getPrice_def Let_def cache_get_def)

theorem getPrice_serves_truthy_cached_value_witness:
  "map_of (store \<lparr> store = [(''price:btc'', \<lparr> e_value = JNumber 50000, timestamp = at_ms 0, expiry = Finite 300000 \<rparr>)],
                    ttl = Finite 300000, max_entries = 100,
                    stats = \<lparr> hits = 0, misses = 0, sets = 1, deletes = 0 \<rparr> \<rparr>) (price_key ''BTC'')
     = Some \<lparr> e_value = JNumber 50000, timestamp = at_ms 0, expiry = Finite 300000 \<rparr> \<and>
   \<not> js_lt (expiry \<lparr> e_value = JNumber 50000, timestamp = at_ms 0, expiry = Finite 300000 \<rparr>)
          (num_of_time (at_ms 1000)) \<and>
   truthy (e_value \<lparr> e_value = JNumber 50000, timestamp = at_ms 0, expiry = Finite 300000 \<rparr>) \<and>
   getPrice \<lparr> primaryProvider = (\<lambda>s. Inl (Error ''timeout'')), fallbackProviderInstance = None \<rparr>
      \<lparr> store = [(''price:btc'', \<lparr> e_value = JNumber 50000, timestamp = at_ms 0, expiry = Finite 300000 \<rparr>)],
        ttl = Finite 300000, max_entries = 100,
        stats = \<lparr> hits = 0, misses = 0, sets = 1, deletes = 0 \<rparr> \<rparr>
      ''BTC'' (at_ms 1000) (at_ms 1000) (at_ms 1000) (at_ms 1000)
     = (Inr (JNumber 50000),
        \<lparr> store = [(''price:btc'', \<lparr> e_value = JNumber 50000, timestamp = at_ms 0, expiry = Finite 300000 \<rparr>)],
          ttl = Finite 300000, max_entries = 100,
          stats = \<lparr> hits = 1, misses = 0, sets = 1, deletes = 0 \<rparr> \<rparr>,
        [LogDebug ''Using cached price for BTC''])"
proof -
  let ?e = "\<lparr> e_value = JNumber 50000, timestamp = at_ms 0, expiry = Finite 300000 \<rparr>"
  let ?pc = "\<lparr> store = [(''price:btc'', ?e)], ttl = Finite 300000, max_entries = 100,
                stats = \<lparr> hits = 0, misses = 0, sets = 1, deletes = 0 \<rparr> \<rparr>"
  have present: "map_of (store ?pc) (price_key ''BTC'') = Some ?e"
    by (simp add: price_key_BTC)
  have live: "\<not> js_lt (expiry ?e) (num_of_time (at_ms 1000))"
    by (simp add: num_of_time_at_ms)
  have tr: "truthy (e_value ?e)" by simp
  note inst = getPrice_serves_truthy_cached_value [OF present live tr,
      where svc = "\<lparr> primaryProvider = (\<lambda>s. Inl (Error ''timeout'')),
                      fallbackProviderInstance = None \<rparr>"
        and now_scan = "at_ms 1000" and now_ts = "at_ms 1000" and now_exp = "at_ms 1000",
      THEN conjunct1]
  from inst present live tr show ?thesis by simp
qed

text \<open>
  Any cached value that is not truthy is treated so: the cache counts a hit, and
  \<open>getPrice\<close> goes on to call the primary provider.
\<close>

lemma getPrice_miss_calls_primary:
  assumes "\<not> truthy (fst (cache_get pc (price_key symbol) now_get))"
  shows "\<exists>rest. snd (snd (getPrice svc pc symbol now_get now_scan now_ts now_exp))
           = PrimaryCall symbol # rest"
  using assms
  by (auto simp: getPrice_def Let_def case_prod_beta split: sum.splits option.splits)

lemma getPrice_falsy_cached_value_counts_hit_and_fetches:
  assumes "map_of (store pc) (price_key symbol) = Some e"
    and "\<not> js_lt (expiry e) (num_of_time now_get)"
    and "\<not> truthy (e_value e)"
  shows "cache_get pc (price_key symbol) now_get =
           (e_value e, pc\<lparr> stats := (stats pc)\<lparr> hits := hits (stats pc) + 1 \<rparr> \<rparr>) \<and>
         (\<exists>rest. snd (snd (getPrice svc pc symbol now_get now_scan now_ts now_exp))
            = PrimaryCall symbol # rest)"
proof -
  from assms(1,2) have look: "cache_get pc (price_key symbol) now_get =
      (e_value e, pc\<lparr> stats := (stats pc)\<lparr> hits := hits (stats pc) + 1 \<rparr> \<rparr>)"
    by (simp add: cache_get_def)
  with assms(3) have "\<not> truthy (fst (cache_get pc (price_key symbol) now_get))" by simp
  from getPrice_miss_calls_primary [OF this] look show ?thesis by blast
qed

subsection \<open>Fallback\<close>

text \<open>
  C3. The claim is that after a miss, a failing primary and a fallback that returns
  \<open>p\<close>, the price is cached so that the next \<open>getPrice\<close> for the key calls no provider.
  When the fallback returns \<open>0\<close>, the value is stored, but the next call finds it falsy
  and asks both providers again.
\<close>

theorem getPrice_fallback_zero_is_fetched_again:
  "fst (getPrice \<lparr> primaryProvider = (\<lambda>s. Inl (Error ''timeout'')),
                    fallbackProviderInstance = Some (\<lambda>s. Inr (JNumber 0)) \<rparr>
          (new_cache (Some (Finite 300000)) (Some 100))
            ''ETH'' (at_ms 0) (at_ms 0) (at_ms 0) (at_ms 0)) = Inr (JNumber 0) \<and>
   map_of (store (fst (snd (getPrice \<lparr> primaryProvider = (\<lambda>s. Inl (Error ''timeout'')),
                    fallbackProviderInstance = Some (\<lambda>s. Inr (JNumber 0)) \<rparr>
          (new_cache (Some (Finite 300000)) (Some 100))
            ''ETH'' (at_ms 0) (at_ms 0) (at_ms 0) (at_ms 0))))) (price_key ''ETH'')
     = Some \<lparr> e_value = JNumber 0, timestamp = at_ms 0, expiry = Finite 300000 \<rparr> \<and>
   snd (snd (getPrice \<lparr> primaryProvider = (\<lambda>s. Inl (Error ''timeout'')),
                    fallbackProviderInstance = Some (\<lambda>s. Inr (JNumber 0)) \<rparr>
          (fst (snd (getPrice \<lparr> primaryProvider = (\<lambda>s. Inl (Error ''timeout'')),
                    fallbackProviderInstance = Some (\<lambda>s. Inr (JNumber 0)) \<rparr>
             (new_cache (Some (Finite 300000)) (Some 100))
            ''ETH'' (at_ms 0) (at_ms 0) (at_ms 0) (at_ms 0))))
          ''ETH'' (at_ms 0) (at_ms 0) (at_ms 0) (at_ms 0)))
     = [PrimaryCall ''ETH'', LogWarn ''Primary provider failed for ETH price: timeout'',
        FallbackCall ''ETH'']"
  by (simp add: getPrice_def Let_def cache_get_def cache_set_def evict_def new_cache_def num_or_def
      js_num_or_def num_of_time_at_ms round_double_numeral price_key_ETH)

text \<open>
  C3, as the code has it. When the lookup gives nothing truthy, the primary provider
  fails and the configured fallback returns a truthy \<open>p\<close>: \<open>getPrice\<close> returns \<open>p\<close>,
  calls each provider once, and stores \<open>p\<close> under the key with the cache's default
  TTL; a later \<open>getPrice\<close> for the symbol, at a clock reading up to that expiry, returns
  \<open>p\<close> and calls no provider, whatever the providers then are.
\<close>

theorem getPrice_fallback_populates_cache:
  assumes miss: "\<not> truthy (fst (cache_get pc (price_key symbol) now_get))"
    and prim: "primaryProvider svc symbol = Inl err"
    and fb: "fallbackProviderInstance svc = Some fallback"
    and fbok: "fallback symbol = Inr p"
    and tr: "truthy p"
    and live: "\<not> js_lt (js_add (num_of_time now_exp) (ttl pc)) (num_of_time later)"
  shows "fst (getPrice svc pc symbol now_get now_scan now_ts now_exp) = Inr p \<and>
         map_of (store (fst (snd (getPrice svc pc symbol now_get now_scan now_ts now_exp))))
            (price_key symbol)
           = Some \<lparr> e_value = p, timestamp = now_ts, expiry = js_add (num_of_time now_exp) (ttl pc) \<rparr> \<and>
         snd (snd (getPrice svc pc symbol now_get now_scan now_ts now_exp)) =
           [PrimaryCall symbol,
            LogWarn (''Primary provider failed for '' @ symbol @ '' price: '' @ message err),
            FallbackCall symbol] \<and>
         fst (getPrice later_svc (fst (snd (getPrice svc pc symbol now_get now_scan now_ts now_exp)))
                symbol later later_scan later_ts later_exp) = Inr p \<and>
         \<not> list_ex is_provider_call
             (snd (snd (getPrice later_svc
                (fst (snd (getPrice svc pc symbol now_get now_scan now_ts now_exp)))
                symbol later later_scan later_ts later_exp)))"
proof -
  let ?key = "price_key symbol"
  let ?pc0 = "snd (cache_get pc ?key now_get)"
  let ?pc1 = "cache_set ?pc0 ?key p None now_scan now_ts now_exp"
  let ?e = "\<lparr> e_value = p, timestamp = now_ts, expiry = js_add (num_of_time now_exp) (ttl pc) \<rparr>"
  have first: "getPrice svc pc symbol now_get now_scan now_ts now_exp =
      (Inr p, ?pc1,
       [PrimaryCall symbol,
        LogWarn (''Primary provider failed for '' @ symbol @ '' price: '' @ message err),
        FallbackCall symbol])"
    using miss prim fb fbok by (simp add: getPrice_def Let_def case_prod_beta)
  have ttl0: "ttl ?pc0 = ttl pc"
    by (simp add: cache_get_def split: option.splits)
  have stored: "map_of (store ?pc1) ?key = Some ?e"
    by (simp add: cache_set_def update_conv' js_num_or_def ttl0)
  have "\<not> js_lt (expiry ?e) (num_of_time later)" "truthy (e_value ?e)"
    using live tr by simp_all
  with stored have second: "getPrice later_svc ?pc1 symbol later later_scan later_ts later_exp =
      (Inr p, ?pc1\<lparr> stats := (stats ?pc1)\<lparr> hits := hits (stats ?pc1) + 1 \<rparr> \<rparr>,
       [LogDebug (''Using cached price for '' @ symbol)])"
    by (simp add: getPrice_def Let_def cache_get_def)
  show ?thesis
    by (simp add: first second stored)
qed

theorem getPrice_fallback_populates_cache_witness:
  "\<not> truthy (fst (cache_get (new_cache (Some (Finite 300000)) (Some 100))
                    (price_key ''ETH'') (at_ms 0))) \<and>
   truthy (JNumber 3000) \<and>
   \<not> js_lt (js_add (num_of_time (at_ms 0)) (ttl (new_cache (Some (Finite 300000)) (Some 100))))
          (num_of_time (at_ms 1)) \<and>
   fst (getPrice \<lparr> primaryProvider = (\<lambda>s. Inl (Error ''timeout'')),
                    fallbackProviderInstance = Some (\<lambda>s. Inr (JNumber 3000)) \<rparr>
          (new_cache (Some (Finite 300000)) (Some 100))
            ''ETH'' (at_ms 0) (at_ms 0) (at_ms 0) (at_ms 0)) = Inr (JNumber 3000) \<and>
   map_of (store (fst (snd (getPrice \<lparr> primaryProvider = (\<lambda>s. Inl (Error ''timeout'')),
                    fallbackProviderInstance = Some (\<lambda>s. Inr (JNumber 3000)) \<rparr>
          (new_cache (Some (Finite 300000)) (Some 100))
            ''ETH'' (at_ms 0) (at_ms 0) (at_ms 0) (at_ms 0))))) ''price:eth''
     = Some \<lparr> e_value = JNumber 3000, timestamp = at_ms 0, expiry = Finite 300000 \<rparr> \<and>
   fst (getPrice \<lparr> primaryProvider = (\<lambda>s. Inl (Error ''timeout'')),
                    fallbackProviderInstance = Some (\<lambda>s. Inl (Error ''down'')) \<rparr>
          (fst (snd (getPrice \<lparr> primaryProvider = (\<lambda>s. Inl (Error ''timeout'')),
                    fallbackProviderInstance = Some (\<lambda>s. Inr (JNumber 3000)) \<rparr>
             (new_cache (Some (Finite 300000)) (Some 100))
            ''ETH'' (at_ms 0) (at_ms 0) (at_ms 0) (at_ms 0))))
          ''ETH'' (at_ms 1) (at_ms 1) (at_ms 1) (at_ms 1)) = Inr (JNumber 3000) \<and>
   \<not> list_ex is_provider_call
      (snd (snd (getPrice \<lparr> primaryProvider = (\<lambda>s. Inl (Error ''timeout'')),
                    fallbackProviderInstance = Some (\<lambda>s. Inl (Error ''down'')) \<rparr>
          (fst (snd (getPrice \<lparr> primaryProvider = (\<lambda>s. Inl (Error ''timeout'')),
                    fallbackProviderInstance = Some (\<lambda>s. Inr (JNumber 3000)) \<rparr>
             (new_cache (Some (Finite 300000)) (Some 100))
            ''ETH'' (at_ms 0) (at_ms 0) (at_ms 0) (at_ms 0))))
          ''ETH'' (at_ms 1) (at_ms 1) (at_ms 1) (at_ms 1))))"
proof -
  let ?svc = "\<lparr> primaryProvider = (\<lambda>s. Inl (Error ''timeout'')),
                 fallbackProviderInstance = Some (\<lambda>s. Inr (JNumber 3000)) \<rparr>"
  let ?svc2 = "\<lparr> primaryProvider = (\<lambda>s. Inl (Error ''timeout'')),
                  fallbackProviderInstance = Some (\<lambda>s. Inl (Error ''down'')) \<rparr>"
  let ?pc = "new_cache (Some (Finite 300000)) (Some 100)"
  have miss: "\<not> truthy (fst (cache_get ?pc (price_key ''ETH'') (at_ms 0)))"
    by (simp add: cache_get_def new_cache_def)
  have prim: "primaryProvider ?svc ''ETH'' = Inl (Error ''timeout'')" by simp
  have fb: "fallbackProviderInstance ?svc = Some (\<lambda>s. Inr (JNumber 3000))" by simp
  have fbok: "(\<lambda>s::string. (Inr (JNumber 3000) :: js_error + jsval)) ''ETH'' = Inr (JNumber 3000)"
    by simp
  have tr: "truthy (JNumber 3000)" by simp
  have live: "\<not> js_lt (js_add (num_of_time (at_ms 0)) (ttl ?pc)) (num_of_time (at_ms 1))"
    by (simp add: new_cache_def js_num_or_def num_of_time_at_ms round_double_numeral)
  note inst = getPrice_fallback_populates_cache [OF miss prim fb fbok tr live,
      where now_scan = "at_ms 0" and now_ts = "at_ms 0" and later_svc = ?svc2
        and later_scan = "at_ms 1" and later_ts = "at_ms 1" and later_exp = "at_ms 1"]
  have ttl0: "ttl ?pc = Finite 300000" by (simp add: new_cache_def js_num_or_def)
  from inst miss tr live show ?thesis
    by (simp add: price_key_ETH ttl0 num_of_time_at_ms round_double_numeral)
qed

text \<open>
  Any payload of the fallback that is not truthy is returned and stored, and fetched again
  by the next call.
\<close>

lemma getPrice_fallback_falsy_is_fetched_again:
  assumes miss: "\<not> truthy (fst (cache_get pc (price_key symbol) now_get))"
    and prim: "primaryProvider svc symbol = Inl err"
    and fb: "fallbackProviderInstance svc = Some fallback"
    and fbok: "fallback symbol = Inr p"
    and falsy: "\<not> truthy p"
    and live: "\<not> js_lt (js_add (num_of_time now_exp) (ttl pc)) (num_of_time later)"
  shows "fst (getPrice svc pc symbol now_get now_scan now_ts now_exp) = Inr p \<and>
         map_of (store (fst (snd (getPrice svc pc symbol now_get now_scan now_ts now_exp))))
            (price_key symbol)
           = Some \<lparr> e_value = p, timestamp = now_ts,
                    expiry = js_add (num_of_time now_exp) (ttl pc) \<rparr> \<and>
         (\<exists>rest. snd (snd (getPrice later_svc
                (fst (snd (getPrice svc pc symbol now_get now_scan now_ts now_exp)))
                symbol later later_scan later_ts later_exp))
            = PrimaryCall symbol # rest)"
proof -
  let ?key = "price_key symbol"
  let ?pc0 = "snd (cache_get pc ?key now_get)"
  let ?pc1 = "cache_set ?pc0 ?key p None now_scan now_ts now_exp"
  let ?e = "\<lparr> e_value = p, timestamp = now_ts, expiry = js_add (num_of_time now_exp) (ttl pc) \<rparr>"
  have first: "getPrice svc pc symbol now_get now_scan now_ts now_exp =
      (Inr p, ?pc1,
       [PrimaryCall symbol,
        LogWarn (''Primary provider failed for '' @ symbol @ '' price: '' @ message err),
        FallbackCall symbol])"
    using miss prim fb fbok by (simp add: getPrice_def Let_def case_prod_beta)
  have ttl0: "ttl ?pc0 = ttl pc"
    by (simp add: cache_get_def split: option.splits)
  have stored: "map_of (store ?pc1) ?key = Some ?e"
    by (simp add: cache_set_def update_conv' js_num_or_def ttl0)
  have "\<not> js_lt (expiry ?e) (num_of_time later)" "\<not> truthy (e_value ?e)"
    using live falsy by simp_all
  from getPrice_falsy_cached_value_counts_hit_and_fetches [OF stored this,
      of later_svc later_scan later_ts later_exp]
  show ?thesis by (simp add: first stored)
qed

subsection \<open>Both providers fail\<close>

text \<open>
  C2. The claim is that the rejection's message holds the messages of both failures.
  The error thrown is a new \<open>AppError\<close> with a fixed text around the symbol: with the
  failures \<open>timeout\<close> and \<open>rate limited\<close>, neither occurs in it.
\<close>

theorem getPrice_both_fail_message_omits_causes:
  "fst (getPrice \<lparr> primaryProvider = (\<lambda>s. Inl (Error ''timeout'')),
                    fallbackProviderInstance = Some (\<lambda>s. Inl (Error ''rate limited'')) \<rparr>
          (new_cache (Some (Finite 300000)) (Some 100))
            ''ETH'' (at_ms 0) (at_ms 0) (at_ms 0) (at_ms 0))
     = Inl (AppError ''Failed to get price for ETH from any provider'' 500 ''INTERNAL_ERROR'') \<and>
   message (AppError ''Failed to get price for ETH from any provider'' 500 ''INTERNAL_ERROR'')
     = ''Failed to get price for ETH from any provider'' \<and>
   \<not> sublist ''timeout'' ''Failed to get price for ETH from any provider'' \<and>
   \<not> sublist ''rate limited'' ''Failed to get price for ETH from any provider''"
proof -
  have a: "\<not> sublist ''timeout'' ''Failed to get price for ETH from any provider''"
    by code_simp
  have b: "\<not> sublist ''rate limited'' ''Failed to get price for ETH from any provider''"
    by code_simp
  have c: "fst (getPrice \<lparr> primaryProvider = (\<lambda>s. Inl (Error ''timeout'')),
                    fallbackProviderInstance = Some (\<lambda>s. Inl (Error ''rate limited'')) \<rparr>
          (new_cache (Some (Finite 300000)) (Some 100))
            ''ETH'' (at_ms 0) (at_ms 0) (at_ms 0) (at_ms 0))
     = Inl (AppError ''Failed to get price for ETH from any provider'' 500 ''INTERNAL_ERROR'')"
    by (simp add: getPrice_def Let_def cache_get_def new_cache_def num_or_def price_key_ETH)
  from a b c show ?thesis by simp
qed

text \<open>
  C2, as the code has it. When the lookup gives nothing truthy and both the primary and
  the configured fallback fail, \<open>getPrice\<close> rejects with the \<open>AppError\<close>
  \<open>Failed to get price for <symbol> from any provider\<close> (status 500); the two
  underlying messages go to the log, the first as a warning and the second as an error.
  No \<open>set\<close> is made: the cache is as the lookup left it, the \<open>sets\<close> counter is
  unchanged, a key that was absent stays absent and an expired entry of the key is gone.
\<close>

theorem getPrice_both_fail_rejects_generic:
  assumes miss: "\<not> truthy (fst (cache_get pc (price_key symbol) now_get))"
    and prim: "primaryProvider svc symbol = Inl err"
    and fb: "fallbackProviderInstance svc = Some fallback"
    and fbfail: "fallback symbol = Inl fallbackError"
  shows "getPrice svc pc symbol now_get now_scan now_ts now_exp =
           (Inl (AppError (''Failed to get price for '' @ symbol @ '' from any provider'') 500
                   ''INTERNAL_ERROR''),
            snd (cache_get pc (price_key symbol) now_get),
            [PrimaryCall symbol,
             LogWarn (''Primary provider failed for '' @ symbol @ '' price: '' @ message err),
             FallbackCall symbol,
             LogError (''Fallback provider also failed for '' @ symbol @ '' price: ''
                        @ message fallbackError)]) \<and>
         sets (stats (fst (snd (getPrice svc pc symbol now_get now_scan now_ts now_exp))))
           = sets (stats pc) \<and>
         (\<forall>k. map_of (store pc) k = None \<longrightarrow>
            map_of (store (fst (snd (getPrice svc pc symbol now_get now_scan now_ts now_exp)))) k
              = None) \<and>
         (\<forall>e. map_of (store pc) (price_key symbol) = Some e \<and>
              js_lt (expiry e) (num_of_time now_get) \<longrightarrow>
            map_of (store (fst (snd (getPrice svc pc symbol now_get now_scan now_ts now_exp))))
              (price_key symbol) = None)"
proof -
  have res: "getPrice svc pc symbol now_get now_scan now_ts now_exp =
           (Inl (AppError (''Failed to get price for '' @ symbol @ '' from any provider'') 500
                   ''INTERNAL_ERROR''),
            snd (cache_get pc (price_key symbol) now_get),
            [PrimaryCall symbol,
             LogWarn (''Primary provider failed for '' @ symbol @ '' price: '' @ message err),
             FallbackCall symbol,
             LogError (''Fallback provider also failed for '' @ symbol @ '' price: ''
                        @ message fallbackError)])"
    using miss prim fb fbfail by (simp add: getPrice_def Let_def case_prod_beta)
  have sets0: "sets (stats (snd (cache_get pc (price_key symbol) now_get))) = sets (stats pc)"
    by (simp add: cache_get_def split: option.splits)
  have absent: "map_of (store (snd (cache_get pc (price_key symbol) now_get))) k = None"
    if "map_of (store pc) k = None" for k
    using that by (auto simp: cache_get_def delete_conv' split: option.splits)
  have expired: "map_of (store (snd (cache_get pc (price_key symbol) now_get))) (price_key symbol) = None"
    if "map_of (store pc) (price_key symbol) = Some e" "js_lt (expiry e) (num_of_time now_get)"
    for e
    using that by (simp add: cache_get_def delete_conv')
  show ?thesis
    using sets0 absent expired by (auto simp: res)
qed

theorem getPrice_both_fail_rejects_generic_witness:
  "\<not> truthy (fst (cache_get (new_cache (Some (Finite 300000)) (Some 100))
                    (price_key ''ETH'') (at_ms 0))) \<and>
   map_of (store (new_cache (Some (Finite 300000)) (Some 100))) ''price:eth'' = None \<and>
   getPrice \<lparr> primaryProvider = (\<lambda>s. Inl (Error ''timeout'')),
               fallbackProviderInstance = Some (\<lambda>s. Inl (Error ''rate limited'')) \<rparr>
          (new_cache (Some (Finite 300000)) (Some 100))
            ''ETH'' (at_ms 0) (at_ms 0) (at_ms 0) (at_ms 0)
     = (Inl (AppError ''Failed to get price for ETH from any provider'' 500 ''INTERNAL_ERROR''),
        snd (cache_get (new_cache (Some (Finite 300000)) (Some 100)) ''price:eth'' (at_ms 0)),
        [PrimaryCall ''ETH'',
         LogWarn ''Primary provider failed for ETH price: timeout'',
         FallbackCall ''ETH'',
         LogError ''Fallback provider also failed for ETH price: rate limited'']) \<and>
   map_of (store (fst (snd (getPrice \<lparr> primaryProvider = (\<lambda>s. Inl (Error ''timeout'')),
               fallbackProviderInstance = Some (\<lambda>s. Inl (Error ''rate limited'')) \<rparr>
          (new_cache (Some (Finite 300000)) (Some 100))
            ''ETH'' (at_ms 0) (at_ms 0) (at_ms 0) (at_ms 0))))) ''price:eth'' = None"
proof -
  let ?svc = "\<lparr> primaryProvider = (\<lambda>s. Inl (Error ''timeout'')),
                 fallbackProviderInstance = Some (\<lambda>s. Inl (Error ''rate limited'')) \<rparr>"
  let ?pc = "new_cache (Some (Finite 300000)) (Some 100)"
  have miss: "\<not> truthy (fst (cache_get ?pc (price_key ''ETH'') (at_ms 0)))"
    by (simp add: cache_get_def new_cache_def)
  have prim: "primaryProvider ?svc ''ETH'' = Inl (Error ''timeout'')" by simp
  have fb: "fallbackProviderInstance ?svc = Some (\<lambda>s. Inl (Error ''rate limited''))" by simp
  have fbfail: "(\<lambda>s::string. (Inl (Error ''rate limited'') :: js_error + jsval)) ''ETH''
                  = Inl (Error ''rate limited'')"
    by simp
  have absent: "map_of (store ?pc) ''price:eth'' = None" by (simp add: new_cache_def)
  note inst = getPrice_both_fail_rejects_generic [OF miss prim fb fbfail,
      where now_scan = "at_ms 0" and now_ts = "at_ms 0" and now_exp = "at_ms 0"]
  note res = inst [THEN conjunct1]
  note keep = inst [THEN conjunct2, THEN conjunct2, THEN conjunct1, rule_format, OF absent]
  from res have r: "getPrice ?svc ?pc ''ETH'' (at_ms 0) (at_ms 0) (at_ms 0) (at_ms 0)
     = (Inl (AppError ''Failed to get price for ETH from any provider'' 500 ''INTERNAL_ERROR''),
        snd (cache_get ?pc ''price:eth'' (at_ms 0)),
        [PrimaryCall ''ETH'',
         LogWarn ''Primary provider failed for ETH price: timeout'',
         FallbackCall ''ETH'',
         LogError ''Fallback provider also failed for ETH price: rate limited''])"
    by (simp add: price_key_ETH)
  from miss absent r keep show ?thesis by (intro conjI)
qed

end
